theory Spec2Isabelle
  imports Main
begin

section \<open>The crawl-frontier scheduler for Scrapy\<close>

text \<open>
  A shallow embedding of \<^verbatim>\<open>crawlfrontier/contrib/scrapy/schedulers/frontier.py\<close>:
  the classes \<^verbatim>\<open>StatsManager\<close> and \<^verbatim>\<open>CrawlFrontierScheduler\<close>. Mutation of
  \<^verbatim>\<open>self\<close> is explicit state passing: a method takes the scheduler and returns its
  result together with the scheduler after the call.

  Not modelled: the log messages, the splicing of the middlewares into the crawler
  (\<^verbatim>\<open>_add_middlewares\<close>), \<^verbatim>\<open>open\<close>, and \<^verbatim>\<open>process_spider_output\<close> with the counter
  \<^verbatim>\<open>add_crawled_page\<close> that only it uses. None of them reads or writes the deque of
  pending requests.
\<close>

subsection \<open>Python dictionaries\<close>

text \<open>\<^verbatim>\<open>d.get(key, default)\<close> of a Python dict.\<close>

definition dict_get :: "('k \<rightharpoonup> 'v) \<Rightarrow> 'k \<Rightarrow> 'v \<Rightarrow> 'v" where
  "dict_get d key dflt = (case d key of None \<Rightarrow> dflt | Some v \<Rightarrow> v)"

subsection \<open>Requests\<close>

text \<open>
  A Scrapy \<^verbatim>\<open>Request\<close>, as far as the scheduler looks at it: the scheduler reads
  \<^verbatim>\<open>request.meta\<close> and otherwise only routes the object. The redirect middleware of
  Scrapy stores the number of redirect hops as an integer under \<^verbatim>\<open>'redirect_times'\<close>.
\<close>

record request =
  url :: string
  meta :: "string \<rightharpoonup> int"

subsection \<open>The stats collector of the crawler\<close>

text \<open>
  \<^verbatim>\<open>crawler.stats\<close> is Scrapy's stats collector, a dictionary of counters behind
  \<^verbatim>\<open>inc_value(key, count)\<close>, which starts a missing counter at 0, and
  \<^verbatim>\<open>set_value(key, value)\<close>.
\<close>

type_synonym stats_collector = "string \<rightharpoonup> int"

definition inc_value :: "stats_collector \<Rightarrow> string \<Rightarrow> int \<Rightarrow> stats_collector" where
  "inc_value d key count = d(key \<mapsto> dict_get d key 0 + count)"

definition set_value :: "stats_collector \<Rightarrow> string \<Rightarrow> int \<Rightarrow> stats_collector" where
  "set_value d key v = d(key \<mapsto> v)"

subsection \<open>StatsManager\<close>

definition STATS_PREFIX :: string where
  "STATS_PREFIX = ''crawlfrontier''"

record stats_manager =
  stats :: stats_collector
  prefix :: string

text \<open>\<^verbatim>\<open>StatsManager(stats)\<close>, with the default prefix.\<close>

definition StatsManager :: "stats_collector \<Rightarrow> stats_manager" where
  "StatsManager d = \<lparr>stats = d, prefix = STATS_PREFIX\<rparr>"

definition get_stats_name :: "stats_manager \<Rightarrow> string \<Rightarrow> string" where
  "get_stats_name sm variable = prefix sm @ ''/'' @ variable"

definition sm_inc_value :: "stats_manager \<Rightarrow> string \<Rightarrow> int \<Rightarrow> stats_manager" where
  "sm_inc_value sm variable count =
     sm\<lparr>stats := inc_value (stats sm) (get_stats_name sm variable) count\<rparr>"

definition sm_set_value :: "stats_manager \<Rightarrow> string \<Rightarrow> int \<Rightarrow> stats_manager" where
  "sm_set_value sm variable v =
     sm\<lparr>stats := set_value (stats sm) (get_stats_name sm variable) v\<rparr>"

text \<open>The methods with \<^verbatim>\<open>count=1\<close> by default take the count explicitly here.\<close>

definition add_seeds :: "stats_manager \<Rightarrow> int \<Rightarrow> stats_manager" where
  "add_seeds sm count = sm_inc_value sm ''seeds_count'' count"

definition add_redirected_requests :: "stats_manager \<Rightarrow> int \<Rightarrow> stats_manager" where
  "add_redirected_requests sm count = sm_inc_value sm ''redirected_requests_count'' count"

definition add_returned_requests :: "stats_manager \<Rightarrow> int \<Rightarrow> stats_manager" where
  "add_returned_requests sm count = sm_inc_value sm ''returned_requests_count'' count"

text \<open>
  \<^verbatim>\<open>error_code\<close> is a string already (a class name or \<^verbatim>\<open>'?'\<close>), so
  \<^verbatim>\<open>str(error_code)\<close> is the string itself.
\<close>

definition add_request_error :: "stats_manager \<Rightarrow> string \<Rightarrow> stats_manager" where
  "add_request_error sm error_code =
     sm_inc_value (sm_inc_value sm ''request_errors_count'' 1)
       (''request_errors_count/'' @ error_code) 1"

definition set_iterations :: "stats_manager \<Rightarrow> int \<Rightarrow> stats_manager" where
  "set_iterations sm iterations = sm_set_value sm ''iterations'' iterations"

definition set_pending_requests :: "stats_manager \<Rightarrow> int \<Rightarrow> stats_manager" where
  "set_pending_requests sm pending = sm_set_value sm ''pending_requests_count'' pending"

subsection \<open>The frontier collaborator\<close>

text \<open>
  \<^verbatim>\<open>self.frontier\<close> is a \<^verbatim>\<open>ScrapyFrontierManager\<close>, whose code is outside this file.
  The scheduler calls four of its methods and reads \<^verbatim>\<open>frontier.manager.finished\<close> and
  \<^verbatim>\<open>frontier.manager.iteration\<close>. Its behaviour is a parameter: a state of any type
  \<open>'f\<close> and one function per method, each returning the state after the call. The
  calls are assumed to return normally; an exception raised inside the frontier is not
  modelled.
\<close>

record 'f frontier_api =
  finished :: "'f \<Rightarrow> bool"
  iteration :: "'f \<Rightarrow> int"
  api_add_seeds :: "request list \<Rightarrow> 'f \<Rightarrow> 'f"
  api_get_next_requests :: "'f \<Rightarrow> request list \<times> 'f"
  api_request_error :: "request \<Rightarrow> string \<Rightarrow> 'f \<Rightarrow> 'f"
  api_stop :: "string \<Rightarrow> 'f \<Rightarrow> 'f"

text \<open>
  The frontier object: the state of its manager and, for stating how often and with which
  arguments the scheduler calls it, the list of the calls it has received, oldest first.
\<close>

datatype frontier_call =
    AddSeeds "request list"
  | GetNextRequests
  | RequestError request string
  | Stop string

record 'f frontier_obj =
  manager :: 'f
  calls :: "frontier_call list"

definition frontier_add_seeds ::
  "'f frontier_api \<Rightarrow> request list \<Rightarrow> 'f frontier_obj \<Rightarrow> 'f frontier_obj" where
  "frontier_add_seeds api seeds f =
     \<lparr>manager = api_add_seeds api seeds (manager f), calls = calls f @ [AddSeeds seeds]\<rparr>"

definition frontier_get_next_requests ::
  "'f frontier_api \<Rightarrow> 'f frontier_obj \<Rightarrow> request list \<times> 'f frontier_obj" where
  "frontier_get_next_requests api f =
     (case api_get_next_requests api (manager f) of
        (batch, m) \<Rightarrow> (batch, \<lparr>manager = m, calls = calls f @ [GetNextRequests]\<rparr>))"

definition frontier_request_error ::
  "'f frontier_api \<Rightarrow> request \<Rightarrow> string \<Rightarrow> 'f frontier_obj \<Rightarrow> 'f frontier_obj" where
  "frontier_request_error api r error f =
     \<lparr>manager = api_request_error api r error (manager f),
      calls = calls f @ [RequestError r error]\<rparr>"

definition frontier_stop ::
  "'f frontier_api \<Rightarrow> string \<Rightarrow> 'f frontier_obj \<Rightarrow> 'f frontier_obj" where
  "frontier_stop api reason f =
     \<lparr>manager = api_stop api reason (manager f), calls = calls f @ [Stop reason]\<rparr>"

subsection \<open>Exceptions\<close>

text \<open>
  The \<^verbatim>\<open>exception\<close> argument of \<^verbatim>\<open>process_exception\<close> is any Python object. The
  scheduler evaluates \<^verbatim>\<open>exception.__class__.__name__\<close> on it, an attribute lookup that
  either gives the name of the class or raises.
\<close>

datatype py_error = AttributeLookupFailed

record py_object =
  class_name :: "py_error + string"

subsection \<open>CrawlFrontierScheduler\<close>

text \<open>
  The fields of the scheduler. \<^verbatim>\<open>_pending_requests\<close> is a deque used at both ends:
  a list, head first. \<open>total_concurrency\<close> is
  \<^verbatim>\<open>crawler.engine.downloader.total_concurrency\<close>, the one attribute of the crawler
  that the scheduler reads after its construction.
\<close>

record 'f scheduler =
  frontier :: "'f frontier_obj"
  stats_manager :: stats_manager
  pending_requests :: "request list"
  redirect_enabled :: bool
  total_concurrency :: int

text \<open>
  \<^verbatim>\<open>__init__\<close>: the stats manager on the crawler's stats, an empty deque, the
  \<^verbatim>\<open>REDIRECT_ENABLED\<close> setting (its truth value), and a new frontier.
\<close>

definition init ::
  "stats_collector \<Rightarrow> bool \<Rightarrow> int \<Rightarrow> 'f \<Rightarrow> 'f scheduler" where
  "init crawler_stats redirect concurrency m =
     \<lparr>frontier = \<lparr>manager = m, calls = []\<rparr>,
      stats_manager = StatsManager crawler_stats,
      pending_requests = [],
      redirect_enabled = redirect,
      total_concurrency = concurrency\<rparr>"

definition request_is_redirected :: "request \<Rightarrow> bool" where
  "request_is_redirected r = (dict_get (meta r) ''redirect_times'' 0 > 0)"

definition get_exception_code :: "py_object \<Rightarrow> string" where
  "get_exception_code exception =
     (case class_name exception of Inr name \<Rightarrow> name | Inl _ \<Rightarrow> ''?'')"

text \<open>\<^verbatim>\<open>__len__\<close>.\<close>

definition len :: "'f scheduler \<Rightarrow> int" where
  "len s = int (length (pending_requests s))"

definition has_pending_requests :: "'f scheduler \<Rightarrow> bool" where
  "has_pending_requests s = (len s > 0)"

definition add_pending_request :: "'f scheduler \<Rightarrow> request \<Rightarrow> 'f scheduler" where
  "add_pending_request s r = s\<lparr>pending_requests := pending_requests s @ [r]\<rparr>"

definition get_pending_request :: "'f scheduler \<Rightarrow> request option \<times> 'f scheduler" where
  "get_pending_request s =
     (case pending_requests s of
        [] \<Rightarrow> (None, s)
      | r # rest \<Rightarrow> (Some r, s\<lparr>pending_requests := rest\<rparr>))"

text \<open>The \<^verbatim>\<open>for\<close> loop of \<^verbatim>\<open>_get_next_request\<close> is the \<open>foldl\<close>.\<close>

definition get_next_request ::
  "'f frontier_api \<Rightarrow> 'f scheduler \<Rightarrow> request option \<times> 'f scheduler" where
  "get_next_request api s =
     (if \<not> finished api (manager (frontier s)) \<and> len s < total_concurrency s
      then (case frontier_get_next_requests api (frontier s) of
              (batch, f) \<Rightarrow>
                get_pending_request (foldl add_pending_request (s\<lparr>frontier := f\<rparr>) batch))
      else get_pending_request s)"

definition enqueue_request ::
  "'f frontier_api \<Rightarrow> 'f scheduler \<Rightarrow> request \<Rightarrow> bool \<times> 'f scheduler" where
  "enqueue_request api s r =
     (if \<not> request_is_redirected r
      then (True, s\<lparr>frontier := frontier_add_seeds api [r] (frontier s),
                    stats_manager := add_seeds (stats_manager s) 1\<rparr>)
      else if redirect_enabled s
      then (True, (add_pending_request s r)
                    \<lparr>stats_manager := add_redirected_requests (stats_manager s) 1\<rparr>)
      else (False, s))"

text \<open>A \<^verbatim>\<open>Request\<close> object is true in a condition; \<^verbatim>\<open>None\<close> is false.\<close>

definition next_request ::
  "'f frontier_api \<Rightarrow> 'f scheduler \<Rightarrow> request option \<times> 'f scheduler" where
  "next_request api s =
     (case get_next_request api s of
        (Some r, s') \<Rightarrow>
          (Some r, s'\<lparr>stats_manager := add_returned_requests (stats_manager s') 1\<rparr>)
      | (None, s') \<Rightarrow> (None, s'))"

definition process_exception ::
  "'f frontier_api \<Rightarrow> 'f scheduler \<Rightarrow> request \<Rightarrow> py_object \<Rightarrow> 'f scheduler" where
  "process_exception api s r exception =
     (let error_code = get_exception_code exception
      in s\<lparr>frontier := frontier_request_error api r error_code (frontier s),
           stats_manager := add_request_error (stats_manager s) error_code\<rparr>)"

text \<open>
  \<^verbatim>\<open>close\<close>: the frontier is stopped, then its iteration count and the length of the
  deque go to the stats (the log message is left out).
\<close>

definition close :: "'f frontier_api \<Rightarrow> 'f scheduler \<Rightarrow> string \<Rightarrow> 'f scheduler" where
  "close api s reason =
     (let f = frontier_stop api reason (frontier s);
          s1 = s\<lparr>frontier := f\<rparr>;
          s2 = s1\<lparr>stats_manager :=
                 set_iterations (stats_manager s1) (iteration api (manager f))\<rparr>
      in s2\<lparr>stats_manager := set_pending_requests (stats_manager s2) (len s2)\<rparr>)"

subsection \<open>Sequences of operations\<close>

text \<open>
  What the host engine and the other collaborators do with a scheduler, one step at a
  time: the engine enqueues a request or asks for the next one; between two calls the
  frontier may change its state on its own account (its middlewares report crawled pages
  to it) and the downloader may report another \<^verbatim>\<open>total_concurrency\<close>.
\<close>

datatype 'f operation =
    Enqueue request
  | NextRequest
  | FrontierActivity "'f \<Rightarrow> 'f"
  | DownloaderActivity int

datatype outcome =
    Admitted bool
  | Dispatched "request option"
  | Quiet

fun step ::
  "'f frontier_api \<Rightarrow> 'f scheduler \<Rightarrow> 'f operation \<Rightarrow> outcome \<times> 'f scheduler" where
  "step api s (Enqueue r) =
     (case enqueue_request api s r of (b, s') \<Rightarrow> (Admitted b, s'))"
| "step api s NextRequest =
     (case next_request api s of (r, s') \<Rightarrow> (Dispatched r, s'))"
| "step api s (FrontierActivity g) =
     (Quiet, s\<lparr>frontier := (frontier s)\<lparr>manager := g (manager (frontier s))\<rparr>\<rparr>)"
| "step api s (DownloaderActivity c) =
     (Quiet, s\<lparr>total_concurrency := c\<rparr>)"

fun run ::
  "'f frontier_api \<Rightarrow> 'f scheduler \<Rightarrow> 'f operation list \<Rightarrow> outcome list \<times> 'f scheduler" where
  "run api s [] = ([], s)"
| "run api s (x # xs) =
     (case step api s x of
        (out, s') \<Rightarrow> (case run api s' xs of (outs, s'') \<Rightarrow> (out # outs, s'')))"

text \<open>The requests that the \<^verbatim>\<open>next_request\<close> calls of a run returned, in order.\<close>

fun dispatched :: "outcome list \<Rightarrow> request list" where
  "dispatched [] = []"
| "dispatched (Dispatched (Some r) # outs) = r # dispatched outs"
| "dispatched (_ # outs) = dispatched outs"

text \<open>
  The requests that enter the buffer, as the specification describes them: an admitted
  redirect continuation enters when it is enqueued, a refill batch enters in the order the
  frontier returned it. \<open>pushed\<close> is what one operation adds in a given state,
  \<open>entered\<close> collects it along a run.
\<close>

fun pushed :: "'f frontier_api \<Rightarrow> 'f scheduler \<Rightarrow> 'f operation \<Rightarrow> request list" where
  "pushed api s (Enqueue r) =
     (if request_is_redirected r \<and> redirect_enabled s then [r] else [])"
| "pushed api s NextRequest =
     (if \<not> finished api (manager (frontier s)) \<and> len s < total_concurrency s
      then fst (api_get_next_requests api (manager (frontier s))) else [])"
| "pushed api s (FrontierActivity g) = []"
| "pushed api s (DownloaderActivity c) = []"

fun entered :: "'f frontier_api \<Rightarrow> 'f scheduler \<Rightarrow> 'f operation list \<Rightarrow> request list" where
  "entered api s [] = []"
| "entered api s (x # xs) = pushed api s x @ entered api (snd (step api s x)) xs"

text \<open>
  The number of redirect continuations that a run admits into the buffer, given the
  \<^verbatim>\<open>REDIRECT_ENABLED\<close> setting of the scheduler.
\<close>

fun admitted_redirects :: "bool \<Rightarrow> 'f operation list \<Rightarrow> nat" where
  "admitted_redirects enabled [] = 0"
| "admitted_redirects enabled (Enqueue r # xs) =
     (if request_is_redirected r \<and> enabled then 1 else 0) + admitted_redirects enabled xs"
| "admitted_redirects enabled (_ # xs) = admitted_redirects enabled xs"

text \<open>The capacities that the downloader reports during a run.\<close>

fun reported :: "'f operation list \<Rightarrow> int list" where
  "reported [] = []"
| "reported (DownloaderActivity c # xs) = c # reported xs"
| "reported (_ # xs) = reported xs"

subsection \<open>A frontier to run the scheduler on\<close>

text \<open>
  A small frontier for concrete runs: it queues the seeds it is given, hands out at most
  \<open>max_next\<close> of them per call, oldest first, and is finished once it is stopped.
\<close>

record fifo_manager =
  fm_finished :: bool
  fm_iteration :: int
  fm_queue :: "request list"

definition fifo_api :: "nat \<Rightarrow> fifo_manager frontier_api" where
  "fifo_api max_next =
     \<lparr>finished = fm_finished,
      iteration = fm_iteration,
      api_add_seeds = (\<lambda>seeds m. m\<lparr>fm_queue := fm_queue m @ seeds\<rparr>),
      api_get_next_requests =
        (\<lambda>m. (take max_next (fm_queue m),
              m\<lparr>fm_iteration := fm_iteration m + 1, fm_queue := drop max_next (fm_queue m)\<rparr>)),
      api_request_error = (\<lambda>r error m. m),
      api_stop = (\<lambda>reason m. m\<lparr>fm_finished := True\<rparr>)\<rparr>"

definition fifo_start :: "request list \<Rightarrow> fifo_manager" where
  "fifo_start q = \<lparr>fm_finished = False, fm_iteration = 0, fm_queue = q\<rparr>"

text \<open>A request as the engine first sees it, and one after \<open>n\<close> redirect hops.\<close>

definition fresh :: "string \<Rightarrow> request" where
  "fresh u = \<lparr>url = u, meta = Map.empty\<rparr>"

definition hop :: "string \<Rightarrow> int \<Rightarrow> request" where
  "hop u n = \<lparr>url = u, meta = [''redirect_times'' \<mapsto> n]\<rparr>"

section \<open>Properties\<close>

lemmas sched_defs =
  dict_get_def inc_value_def set_value_def STATS_PREFIX_def StatsManager_def
  get_stats_name_def sm_inc_value_def sm_set_value_def add_seeds_def
  add_redirected_requests_def add_returned_requests_def add_request_error_def
  set_iterations_def set_pending_requests_def frontier_add_seeds_def
  frontier_get_next_requests_def frontier_request_error_def frontier_stop_def
  init_def request_is_redirected_def get_exception_code_def len_def
  has_pending_requests_def add_pending_request_def get_pending_request_def
  get_next_request_def enqueue_request_def next_request_def process_exception_def
  close_def fifo_api_def fifo_start_def fresh_def hop_def Let_def

subsection \<open>Counters\<close>

lemma sm_inc_value_stats:
  "stats (sm_inc_value sm v c) =
     (stats sm)(get_stats_name sm v \<mapsto> dict_get (stats sm) (get_stats_name sm v) 0 + c)"
  by (simp add: sm_inc_value_def inc_value_def)

lemma sm_inc_value_prefix: "prefix (sm_inc_value sm v c) = prefix sm"
  by (simp add: sm_inc_value_def)

subsection \<open>The buffer in one call\<close>

lemma foldl_add_pending_request:
  "foldl add_pending_request s batch = s\<lparr>pending_requests := pending_requests s @ batch\<rparr>"
  by (induction batch arbitrary: s) (simp_all add: add_pending_request_def)

lemma get_next_request_refill:
  assumes "\<not> finished api (manager (frontier s))" and "len s < total_concurrency s"
  shows "get_next_request api s =
     get_pending_request
       (s\<lparr>frontier := \<lparr>manager = snd (api_get_next_requests api (manager (frontier s))),
                        calls = calls (frontier s) @ [GetNextRequests]\<rparr>,
          pending_requests :=
            pending_requests s @ fst (api_get_next_requests api (manager (frontier s)))\<rparr>)"
  using assms
  by (simp add: get_next_request_def frontier_get_next_requests_def foldl_add_pending_request
      split: prod.splits)

lemma get_next_request_no_refill:
  assumes "finished api (manager (frontier s)) \<or> total_concurrency s \<le> len s"
  shows "get_next_request api s = get_pending_request s"
  using assms by (auto simp add: get_next_request_def)

lemma get_pending_request_frontier: "frontier (snd (get_pending_request s)) = frontier s"
  by (simp add: get_pending_request_def split: list.splits)

lemma next_request_frontier:
  "frontier (snd (next_request api s)) = frontier (snd (get_next_request api s))"
  by (simp add: next_request_def split: prod.splits option.splits)

lemma next_request_queue:
  "fst (next_request api s) =
     (case pending_requests s @ pushed api s NextRequest of [] \<Rightarrow> None | r # rest \<Rightarrow> Some r)
   \<and> pending_requests (snd (next_request api s)) =
     tl (pending_requests s @ pushed api s NextRequest)
   \<and> redirect_enabled (snd (next_request api s)) = redirect_enabled s
   \<and> total_concurrency (snd (next_request api s)) = total_concurrency s"
proof (cases "\<not> finished api (manager (frontier s)) \<and> len s < total_concurrency s")
  case True
  then show ?thesis
    by (simp add: next_request_def get_next_request_refill get_pending_request_def
        split: list.splits)
next
  case False
  then have "get_next_request api s = get_pending_request s"
    by (auto simp add: get_next_request_no_refill)
  with False show ?thesis
    by (auto simp add: next_request_def get_pending_request_def split: list.splits)
qed

lemma enqueue_request_queue:
  "pending_requests (snd (enqueue_request api s r)) =
     pending_requests s @ pushed api s (Enqueue r)
   \<and> redirect_enabled (snd (enqueue_request api s r)) = redirect_enabled s
   \<and> total_concurrency (snd (enqueue_request api s r)) = total_concurrency s"
  by (simp add: enqueue_request_def add_pending_request_def)

subsection \<open>The buffer along a run\<close>

lemma snd_step:
  "snd (step api s (Enqueue r)) = snd (enqueue_request api s r)"
  "snd (step api s NextRequest) = snd (next_request api s)"
  by (simp_all split: prod.splits)

lemma snd_run_Cons: "snd (run api s (x # xs)) = snd (run api (snd (step api s x)) xs)"
  by (simp split: prod.splits)

lemma step_queue:
  "pending_requests s @ pushed api s x =
     dispatched [fst (step api s x)] @ pending_requests (snd (step api s x))"
proof (cases x)
  case (Enqueue r)
  then show ?thesis
    using enqueue_request_queue [of api s r] by (auto split: prod.splits)
next
  case NextRequest
  then show ?thesis
    using next_request_queue [of api s]
    by (cases "pending_requests s @ pushed api s NextRequest") (auto split: prod.splits)
qed simp_all

lemma dispatched_Cons: "dispatched (out # outs) = dispatched [out] @ dispatched outs"
  by (cases "(out # outs)" rule: dispatched.cases) auto

lemma reported_Cons: "reported (x # xs) = reported [x] @ reported xs"
  by (cases x) simp_all

lemma admitted_redirects_Cons:
  "admitted_redirects e (x # xs) = admitted_redirects e [x] + admitted_redirects e xs"
  by (cases x) simp_all

lemma step_redirect_enabled: "redirect_enabled (snd (step api s x)) = redirect_enabled s"
proof (cases x)
  case (Enqueue r)
  then show ?thesis
    using enqueue_request_queue [of api s r] by (simp add: snd_step del: step.simps)
next
  case NextRequest
  then show ?thesis
    using next_request_queue [of api s] by (simp add: snd_step del: step.simps)
qed simp_all

lemma step_total_concurrency:
  assumes "total_concurrency s \<le> c" and "\<forall>c'\<in>set (reported [x]). c' \<le> c"
  shows "total_concurrency (snd (step api s x)) \<le> c"
proof (cases x)
  case (Enqueue r)
  then show ?thesis
    using assms enqueue_request_queue [of api s r] by (simp add: snd_step del: step.simps)
next
  case NextRequest
  then show ?thesis
    using assms next_request_queue [of api s] by (simp add: snd_step del: step.simps)
qed (use assms in simp_all)

text \<open>
  A refill happens below the capacity only, so it cannot lift the buffer above the
  capacity plus one batch.
\<close>

lemma pushed_NextRequest_length:
  assumes "total_concurrency s \<le> c"
    and "\<forall>m. length (fst (api_get_next_requests api m)) \<le> b"
  shows "len s + int (length (pushed api s NextRequest)) \<le> max (len s) (c + int b)"
proof (cases "\<not> finished api (manager (frontier s)) \<and> len s < total_concurrency s")
  case True
  have "int (length (fst (api_get_next_requests api (manager (frontier s))))) \<le> int b"
    using assms(2) by simp
  with True assms(1) show ?thesis by simp
next
  case False
  then show ?thesis by auto
qed

lemma step_len:
  assumes "total_concurrency s \<le> c"
    and "\<forall>m. length (fst (api_get_next_requests api m)) \<le> b"
  shows "len (snd (step api s x))
           \<le> max (len s) (c + int b) + int (admitted_redirects (redirect_enabled s) [x])"
proof (cases x)
  case (Enqueue r)
  have "len (snd (enqueue_request api s r)) = len s + int (length (pushed api s (Enqueue r)))"
    using enqueue_request_queue [of api s r] by (simp add: len_def)
  with Enqueue show ?thesis by (simp add: snd_step del: step.simps)
next
  case NextRequest
  have "len (snd (next_request api s)) \<le> len s + int (length (pushed api s NextRequest))"
    using next_request_queue [of api s] by (simp add: len_def del: pushed.simps)
  with pushed_NextRequest_length [OF assms] NextRequest show ?thesis
    by (simp add: snd_step del: pushed.simps step.simps)
qed (simp_all add: len_def)

lemma run_len:
  assumes "\<forall>m. length (fst (api_get_next_requests api m)) \<le> b"
  shows "total_concurrency s \<le> c \<Longrightarrow> \<forall>c'\<in>set (reported xs). c' \<le> c \<Longrightarrow>
     len (snd (run api s xs))
       \<le> max (len s) (c + int b) + int (admitted_redirects (redirect_enabled s) xs)"
proof (induction xs arbitrary: s)
  case Nil
  then show ?case by simp
next
  case (Cons x xs)
  define s' where "s' = snd (step api s x)"
  have st: "snd (step api s x) = s'" by (simp add: s'_def)
  have rep: "\<forall>c'\<in>set (reported [x]). c' \<le> c" "\<forall>c'\<in>set (reported xs). c' \<le> c"
    using Cons.prems(2) reported_Cons [of x xs] by auto
  have cap: "total_concurrency s' \<le> c"
    using step_total_concurrency [OF Cons.prems(1) rep(1), of api] st by simp
  have en: "redirect_enabled s' = redirect_enabled s"
    using step_redirect_enabled [of api s x] st by simp
  have one: "len s' \<le> max (len s) (c + int b)
                       + int (admitted_redirects (redirect_enabled s) [x])"
    using step_len [OF Cons.prems(1) assms, of x] st by simp
  have "len (snd (run api s' xs))
          \<le> max (len s') (c + int b) + int (admitted_redirects (redirect_enabled s) xs)"
    using Cons.IH [OF cap rep(2)] en by simp
  also have "\<dots> \<le> max (len s) (c + int b)
                     + int (admitted_redirects (redirect_enabled s) [x])
                     + int (admitted_redirects (redirect_enabled s) xs)"
    using one by simp
  finally show ?case
    using st admitted_redirects_Cons [of "redirect_enabled s" x xs]
    by (simp add: snd_run_Cons del: run.simps)
qed

section \<open>The claims of the specification\<close>

subsection \<open>Stopping\<close>

text \<open>
  Claim C1 says that after \<^verbatim>\<open>stop(reason)\<close> the size is 0 for every prior buffer
  content. \<^verbatim>\<open>close\<close> never touches \<^verbatim>\<open>_pending_requests\<close>: a scheduler that holds
  one admitted redirect continuation still holds it after \<^verbatim>\<open>close\<close>.
\<close>

theorem close_counterexample:
  "len (close (fifo_api 3)
      (snd (enqueue_request (fifo_api 3) (init Map.empty True 2 (fifo_start [])) (hop ''a'' 1)))
      ''finished'') \<noteq> 0"
  by (simp add: sched_defs)

text \<open>
  Claim C1, as amended: \<^verbatim>\<open>close(reason)\<close> leaves the buffer as it is, so the size after
  the call is the size before it. The buffered requests are not given back to the
  frontier, which receives the one call \<^verbatim>\<open>stop(reason)\<close> and nothing else, and the
  size is written to the gauge \<^verbatim>\<open>pending_requests_count\<close>.
\<close>

theorem close_keeps_pending:
  "let s' = close api s reason
   in pending_requests s' = pending_requests s
    \<and> len s' = len s
    \<and> calls (frontier s') = calls (frontier s) @ [Stop reason]
    \<and> stats (stats_manager s') (get_stats_name (stats_manager s) ''pending_requests_count'')
        = Some (len s)"
  by (simp add: Let_def close_def len_def frontier_stop_def set_pending_requests_def
      set_iterations_def sm_set_value_def set_value_def get_stats_name_def)

theorem close_keeps_pending_witness:
  "pending_requests (close (fifo_api 3)
      (snd (enqueue_request (fifo_api 3) (init Map.empty True 2 (fifo_start [])) (hop ''a'' 1)))
      ''finished'') = [hop ''a'' 1]
   \<and> calls (frontier (close (fifo_api 3)
      (snd (enqueue_request (fifo_api 3) (init Map.empty True 2 (fifo_start [])) (hop ''a'' 1)))
      ''finished'')) = [Stop ''finished'']
   \<and> stats (stats_manager (close (fifo_api 3)
      (snd (enqueue_request (fifo_api 3) (init Map.empty True 2 (fifo_start [])) (hop ''a'' 1)))
      ''finished'')) ''crawlfrontier/pending_requests_count'' = Some 1"
  using close_keeps_pending
    [of "fifo_api 3"
        "snd (enqueue_request (fifo_api 3) (init Map.empty True 2 (fifo_start [])) (hop ''a'' 1))"
        "''finished''"]
  by (simp add: sched_defs)

subsection \<open>Refilling\<close>

text \<open>
  Claim C2: a call of \<^verbatim>\<open>next_request\<close> pulls from the frontier only if the frontier is
  not finished and the buffer is strictly shorter than the downloader's capacity. When
  the frontier is finished the frontier object is the same after the call, whatever the
  buffer and the capacity are, and so it is when the buffer has reached the capacity; a
  call that reaches the frontier at all was made below the capacity on an unfinished
  frontier, and then it is the single call \<^verbatim>\<open>get_next_requests()\<close>.
\<close>

theorem next_request_pulls_only_below_capacity:
  "let s' = snd (next_request api s)
   in (finished api (manager (frontier s)) \<longrightarrow> frontier s' = frontier s)
    \<and> (total_concurrency s \<le> len s \<longrightarrow> frontier s' = frontier s)
    \<and> (calls (frontier s') \<noteq> calls (frontier s) \<longrightarrow>
         \<not> finished api (manager (frontier s)) \<and> len s < total_concurrency s)
    \<and> (\<not> finished api (manager (frontier s)) \<and> len s < total_concurrency s \<longrightarrow>
         calls (frontier s') = calls (frontier s) @ [GetNextRequests])"
proof (cases "\<not> finished api (manager (frontier s)) \<and> len s < total_concurrency s")
  case True
  then show ?thesis
    by (simp add: Let_def next_request_frontier get_next_request_refill
        get_pending_request_frontier)
next
  case False
  then have "get_next_request api s = get_pending_request s"
    by (auto simp add: get_next_request_no_refill)
  with False show ?thesis
    by (auto simp add: Let_def next_request_frontier get_pending_request_frontier)
qed

text \<open>
  The three cases on the small frontier: a finished frontier with a free downloader, a
  buffer of one request at capacity 1, and an empty buffer at capacity 1.
\<close>

theorem next_request_pulls_only_below_capacity_witness:
  "frontier (snd (next_request (fifo_api 3)
      (init Map.empty True 2 \<lparr>fm_finished = True, fm_iteration = 0, fm_queue = [fresh ''a'']\<rparr>)))
     = frontier (init Map.empty True 2
         \<lparr>fm_finished = True, fm_iteration = 0, fm_queue = [fresh ''a'']\<rparr>)
   \<and> frontier (snd (next_request (fifo_api 3)
        (snd (enqueue_request (fifo_api 3) (init Map.empty True 1 (fifo_start [fresh ''a'']))
           (hop ''b'' 1)))))
     = frontier (init Map.empty True 1 (fifo_start [fresh ''a'']))
   \<and> calls (frontier (snd (next_request (fifo_api 3)
        (init Map.empty True 1 (fifo_start [fresh ''a''])))))
     = [GetNextRequests]"
  using next_request_pulls_only_below_capacity
      [of "fifo_api 3"
          "init Map.empty True 2 \<lparr>fm_finished = True, fm_iteration = 0, fm_queue = [fresh ''a'']\<rparr>"]
    next_request_pulls_only_below_capacity
      [of "fifo_api 3"
          "snd (enqueue_request (fifo_api 3) (init Map.empty True 1 (fifo_start [fresh ''a'']))
             (hop ''b'' 1))"]
    next_request_pulls_only_below_capacity
      [of "fifo_api 3" "init Map.empty True 1 (fifo_start [fresh ''a''])"]
  by (simp add: sched_defs)

subsection \<open>Dispatch order\<close>

text \<open>
  Claim C3: dispatch is first in, first out. For every frontier and every sequence of
  enqueue and next-request calls, interleaved with any activity of the frontier and the
  downloader, the requests that were in the buffer at the start followed by the requests
  that entered it (redirect continuations when admitted, refill batches in the
  frontier's order, each after what was buffered before it) are exactly the requests
  returned so far followed by the buffer at the end. The requests are returned in the
  order in which they entered, and a redirect continuation admitted before a refill is
  returned before the requests of that refill.
\<close>

theorem dispatch_is_fifo:
  "pending_requests s @ entered api s xs =
     dispatched (fst (run api s xs)) @ pending_requests (snd (run api s xs))"
proof (induction xs arbitrary: s)
  case Nil
  then show ?case by simp
next
  case (Cons x xs)
  obtain out s' where st: "step api s x = (out, s')" by (cases "step api s x")
  obtain outs s'' where rn: "run api s' xs = (outs, s'')" by (cases "run api s' xs")
  have "pending_requests s @ entered api s (x # xs)
          = (pending_requests s @ pushed api s x) @ entered api s' xs"
    using st by simp
  also have "\<dots> = dispatched [out] @ (pending_requests s' @ entered api s' xs)"
    using step_queue [of s api x] st by simp
  also have "\<dots> = dispatched [out] @ dispatched outs @ pending_requests s''"
    using Cons.IH [of s'] rn by simp
  also have "\<dots> = dispatched (out # outs) @ pending_requests s''"
    using dispatched_Cons [of out outs] by simp
  finally show ?case using st rn by simp
qed

text \<open>
  A run at capacity 2 on a frontier that holds \<open>a\<close>, \<open>b\<close>, \<open>c\<close> and hands out two
  requests per call: the redirect continuation \<open>r\<close> is admitted before the first
  refill and leaves first; \<open>q\<close> is admitted behind \<open>b\<close> and ahead of the second refill.
\<close>

theorem dispatch_is_fifo_witness:
  "dispatched (fst (run (fifo_api 2)
      (init Map.empty True 2 (fifo_start [fresh ''a'', fresh ''b'', fresh ''c'']))
      [Enqueue (hop ''r'' 1), NextRequest, NextRequest, Enqueue (hop ''q'' 1),
       NextRequest, NextRequest]))
     = [hop ''r'' 1, fresh ''a'', fresh ''b'', hop ''q'' 1]
   \<and> pending_requests (snd (run (fifo_api 2)
      (init Map.empty True 2 (fifo_start [fresh ''a'', fresh ''b'', fresh ''c'']))
      [Enqueue (hop ''r'' 1), NextRequest, NextRequest, Enqueue (hop ''q'' 1),
       NextRequest, NextRequest]))
     = [fresh ''c'']
   \<and> entered (fifo_api 2)
      (init Map.empty True 2 (fifo_start [fresh ''a'', fresh ''b'', fresh ''c'']))
      [Enqueue (hop ''r'' 1), NextRequest, NextRequest, Enqueue (hop ''q'' 1),
       NextRequest, NextRequest]
     = [hop ''r'' 1, fresh ''a'', fresh ''b'', hop ''q'' 1, fresh ''c'']"
  using dispatch_is_fifo
    [of "init Map.empty True 2 (fifo_start [fresh ''a'', fresh ''b'', fresh ''c''])"
        "fifo_api 2"
        "[Enqueue (hop ''r'' 1), NextRequest, NextRequest, Enqueue (hop ''q'' 1),
          NextRequest, NextRequest]"]
  by (simp add: sched_defs)

subsection \<open>Admission\<close>

text \<open>
  Claim C4: a request with a redirect depth above 0 is rejected while
  \<^verbatim>\<open>redirect_enabled\<close> is false. \<^verbatim>\<open>enqueue_request\<close> returns \<^verbatim>\<open>False\<close>, a plain
  result, and the scheduler after the call is the scheduler before it: the same buffer
  of the same size, the same stats, and a frontier that has received no call.
\<close>

theorem enqueue_request_rejected:
  assumes "meta r ''redirect_times'' = Some n" and "0 < n" and "\<not> redirect_enabled s"
  shows "enqueue_request api s r = (False, s)
       \<and> len (snd (enqueue_request api s r)) = len s
       \<and> stats_manager (snd (enqueue_request api s r)) = stats_manager s
       \<and> calls (frontier (snd (enqueue_request api s r))) = calls (frontier s)"
  using assms
  by (simp add: enqueue_request_def request_is_redirected_def dict_get_def)

theorem enqueue_request_rejected_witness:
  "enqueue_request (fifo_api 3) (init Map.empty False 2 (fifo_start [])) (hop ''a'' 1)
     = (False, init Map.empty False 2 (fifo_start []))"
  using enqueue_request_rejected
    [of "hop ''a'' 1" 1 "init Map.empty False 2 (fifo_start [])" "fifo_api 3"]
  by (simp add: hop_def init_def)

text \<open>
  Claim C5: a request with redirect depth 0 is admitted as a seed. The depth is what
  \<^verbatim>\<open>request.meta.get('redirect_times', 0)\<close> reads: 0 for a request that carries the
  entry 0 and 0 for a request that carries no entry, as a request has it before any
  redirect. \<^verbatim>\<open>enqueue_request\<close> returns \<^verbatim>\<open>True\<close>; the frontier receives one more
  call, which is \<^verbatim>\<open>add_seeds\<close> with the list of that one request; the counter
  \<^verbatim>\<open>seeds_count\<close> grows by one and no other counter changes; the buffer is as before.
\<close>

theorem enqueue_request_fresh:
  assumes "dict_get (meta r) ''redirect_times'' 0 = 0"
  shows "let s' = snd (enqueue_request api s r);
             key = get_stats_name (stats_manager s) ''seeds_count''
         in fst (enqueue_request api s r) = True
          \<and> calls (frontier s') = calls (frontier s) @ [AddSeeds [r]]
          \<and> manager (frontier s') = api_add_seeds api [r] (manager (frontier s))
          \<and> dict_get (stats (stats_manager s')) key 0
              = dict_get (stats (stats_manager s)) key 0 + 1
          \<and> (\<forall>k. k \<noteq> key \<longrightarrow> stats (stats_manager s') k = stats (stats_manager s) k)
          \<and> pending_requests s' = pending_requests s"
  using assms
  by (simp add: enqueue_request_def request_is_redirected_def dict_get_def Let_def
      frontier_add_seeds_def add_seeds_def sm_inc_value_stats)

text \<open>A request with the entry 0, and a request with no entry.\<close>

theorem enqueue_request_fresh_witness:
  "fst (enqueue_request (fifo_api 3) (init Map.empty False 2 (fifo_start [])) (hop ''a'' 0))
   \<and> calls (frontier (snd (enqueue_request (fifo_api 3) (init Map.empty False 2 (fifo_start []))
        (hop ''a'' 0)))) = [AddSeeds [hop ''a'' 0]]
   \<and> stats (stats_manager (snd (enqueue_request (fifo_api 3)
        (init Map.empty False 2 (fifo_start [])) (hop ''a'' 0)))) ''crawlfrontier/seeds_count''
       = Some 1
   \<and> pending_requests (snd (enqueue_request (fifo_api 3)
        (init Map.empty False 2 (fifo_start [])) (hop ''a'' 0))) = []
   \<and> fst (enqueue_request (fifo_api 3) (init Map.empty False 2 (fifo_start [])) (fresh ''b''))
   \<and> calls (frontier (snd (enqueue_request (fifo_api 3) (init Map.empty False 2 (fifo_start []))
        (fresh ''b'')))) = [AddSeeds [fresh ''b'']]
   \<and> stats (stats_manager (snd (enqueue_request (fifo_api 3)
        (init Map.empty False 2 (fifo_start [])) (fresh ''b'')))) ''crawlfrontier/seeds_count''
       = Some 1
   \<and> pending_requests (snd (enqueue_request (fifo_api 3)
        (init Map.empty False 2 (fifo_start [])) (fresh ''b''))) = []"
proof -
  have entry: "dict_get (meta (hop ''a'' 0)) ''redirect_times'' 0 = 0"
    by (simp add: dict_get_def hop_def)
  have no_entry: "dict_get (meta (fresh ''b'')) ''redirect_times'' 0 = 0"
    by (simp add: dict_get_def fresh_def)
  show ?thesis
    using enqueue_request_fresh
        [OF entry, of "fifo_api 3" "init Map.empty False 2 (fifo_start [])"]
      enqueue_request_fresh
        [OF no_entry, of "fifo_api 3" "init Map.empty False 2 (fifo_start [])"]
    by (simp add: sched_defs)
qed

text \<open>
  Claim C6: a request with a redirect depth above 0 is admitted while
  \<^verbatim>\<open>redirect_enabled\<close> is true. \<^verbatim>\<open>enqueue_request\<close> returns \<^verbatim>\<open>True\<close>; the
  request is the new last element of the buffer, whose size grows by one; the counter
  \<^verbatim>\<open>redirected_requests_count\<close> grows by one and no other counter changes; the
  frontier is not called.
\<close>

theorem enqueue_request_redirect:
  assumes "meta r ''redirect_times'' = Some n" and "0 < n" and "redirect_enabled s"
  shows "let s' = snd (enqueue_request api s r);
             key = get_stats_name (stats_manager s) ''redirected_requests_count''
         in fst (enqueue_request api s r) = True
          \<and> pending_requests s' = pending_requests s @ [r]
          \<and> len s' = len s + 1
          \<and> dict_get (stats (stats_manager s')) key 0
              = dict_get (stats (stats_manager s)) key 0 + 1
          \<and> (\<forall>k. k \<noteq> key \<longrightarrow> stats (stats_manager s') k = stats (stats_manager s) k)
          \<and> frontier s' = frontier s"
  using assms
  by (simp add: enqueue_request_def request_is_redirected_def dict_get_def Let_def
      add_pending_request_def add_redirected_requests_def sm_inc_value_stats len_def)

theorem enqueue_request_redirect_witness:
  "fst (enqueue_request (fifo_api 3) (init Map.empty True 2 (fifo_start [])) (hop ''a'' 2))
   \<and> pending_requests (snd (enqueue_request (fifo_api 3)
        (init Map.empty True 2 (fifo_start [])) (hop ''a'' 2))) = [hop ''a'' 2]
   \<and> len (snd (enqueue_request (fifo_api 3)
        (init Map.empty True 2 (fifo_start [])) (hop ''a'' 2))) = 1
   \<and> stats (stats_manager (snd (enqueue_request (fifo_api 3)
        (init Map.empty True 2 (fifo_start [])) (hop ''a'' 2))))
        ''crawlfrontier/redirected_requests_count'' = Some 1
   \<and> calls (frontier (snd (enqueue_request (fifo_api 3)
        (init Map.empty True 2 (fifo_start [])) (hop ''a'' 2)))) = []"
  using enqueue_request_redirect
    [of "hop ''a'' 2" 2 "init Map.empty True 2 (fifo_start [])" "fifo_api 3"]
  by (simp add: sched_defs)

subsection \<open>Reporting a failure\<close>

text \<open>
  Claim C7: \<^verbatim>\<open>process_exception\<close> classifies every failure. \<open>get_exception_code\<close>
  is a total function into the strings: where the class name of the failure can be read
  it is that name, where reading it raises it is \<^verbatim>\<open>'?'\<close>. In both cases the frontier
  receives one more call, \<^verbatim>\<open>request_error\<close> with the request and that label, and the
  counters \<^verbatim>\<open>request_errors_count\<close> and \<^verbatim>\<open>request_errors_count/<label>\<close> grow by
  one each, no other counter changing.
\<close>

theorem process_exception_reports:
  "let code = get_exception_code e;
       s' = process_exception api s r e;
       total = get_stats_name (stats_manager s) ''request_errors_count'';
       kind = get_stats_name (stats_manager s) (''request_errors_count/'' @ code)
   in (\<forall>name. class_name e = Inr name \<longrightarrow> code = name)
    \<and> (\<forall>err. class_name e = Inl err \<longrightarrow> code = ''?'')
    \<and> calls (frontier s') = calls (frontier s) @ [RequestError r code]
    \<and> manager (frontier s') = api_request_error api r code (manager (frontier s))
    \<and> dict_get (stats (stats_manager s')) total 0
        = dict_get (stats (stats_manager s)) total 0 + 1
    \<and> dict_get (stats (stats_manager s')) kind 0
        = dict_get (stats (stats_manager s)) kind 0 + 1
    \<and> (\<forall>k. k \<noteq> total \<and> k \<noteq> kind \<longrightarrow>
          stats (stats_manager s') k = stats (stats_manager s) k)
    \<and> pending_requests s' = pending_requests s"
  by (auto simp add: Let_def process_exception_def get_exception_code_def
      frontier_request_error_def add_request_error_def sm_inc_value_stats sm_inc_value_prefix
      dict_get_def get_stats_name_def)

theorem process_exception_reports_witness:
  "get_exception_code \<lparr>class_name = Inr ''TimeoutError''\<rparr> = ''TimeoutError''
   \<and> get_exception_code \<lparr>class_name = Inl AttributeLookupFailed\<rparr> = ''?''
   \<and> calls (frontier (process_exception (fifo_api 3) (init Map.empty True 2 (fifo_start []))
        (fresh ''a'') \<lparr>class_name = Inl AttributeLookupFailed\<rparr>))
       = [RequestError (fresh ''a'') ''?'']
   \<and> stats (stats_manager (process_exception (fifo_api 3)
        (init Map.empty True 2 (fifo_start [])) (fresh ''a'')
        \<lparr>class_name = Inl AttributeLookupFailed\<rparr>)) ''crawlfrontier/request_errors_count''
       = Some 1
   \<and> stats (stats_manager (process_exception (fifo_api 3)
        (init Map.empty True 2 (fifo_start [])) (fresh ''a'')
        \<lparr>class_name = Inl AttributeLookupFailed\<rparr>)) ''crawlfrontier/request_errors_count/?''
       = Some 1"
  using process_exception_reports
      [of "\<lparr>class_name = Inl AttributeLookupFailed\<rparr>" "fifo_api 3"
          "init Map.empty True 2 (fifo_start [])" "fresh ''a''"]
    process_exception_reports
      [of "\<lparr>class_name = Inr ''TimeoutError''\<rparr>" "fifo_api 3"
          "init Map.empty True 2 (fifo_start [])" "fresh ''a''"]
  by (simp add: sched_defs)

subsection \<open>The size of the buffer\<close>

text \<open>
  Claim C8 bounds the buffer by the capacity plus one refill batch, for every sequence
  of enqueue and next-request calls. \<^verbatim>\<open>enqueue_request\<close> appends an admitted redirect
  continuation without looking at the capacity: at capacity 1, on a frontier whose
  batches have at most one request, three redirect continuations make a buffer of three.
\<close>

theorem pending_requests_bound_counterexample:
  "\<not> len (snd (run (fifo_api 1) (init Map.empty True 1 (fifo_start [fresh ''a'']))
           [Enqueue (hop ''r'' 1), Enqueue (hop ''q'' 1), Enqueue (hop ''p'' 2)]))
       \<le> total_concurrency (snd (run (fifo_api 1)
            (init Map.empty True 1 (fifo_start [fresh ''a'']))
            [Enqueue (hop ''r'' 1), Enqueue (hop ''q'' 1), Enqueue (hop ''p'' 2)])) + int 1"
  by (simp add: sched_defs)

text \<open>
  Claim C8, as amended: starting from the empty buffer, after every sequence of enqueue
  and next-request calls the length of the buffer is at most \<open>c + b + k\<close>, where
  \<open>c \<ge> 0\<close> bounds the capacity that the downloader reports during the run, \<open>b\<close> bounds
  the size of a refill batch of the frontier, and \<open>k\<close> is the number of redirect
  continuations admitted into the buffer. A run that admits no redirect continuation
  keeps the buffer within the capacity plus one refill batch.
\<close>

theorem pending_requests_bound:
  assumes "pending_requests s = []"
    and "0 \<le> c"
    and "total_concurrency s \<le> c"
    and "\<forall>c'\<in>set (reported xs). c' \<le> c"
    and "\<forall>m. length (fst (api_get_next_requests api m)) \<le> b"
  shows "len (snd (run api s xs))
           \<le> c + int b + int (admitted_redirects (redirect_enabled s) xs)"
proof -
  have "len s = 0" using assms(1) by (simp add: len_def)
  with run_len [OF assms(5) assms(3) assms(4)] assms(2) show ?thesis by simp
qed

text \<open>
  A run at capacity 2, later 1, on a frontier with batches of three: one redirect
  continuation and one batch enter the buffer, two requests leave it.
\<close>

theorem pending_requests_bound_witness:
  "len (snd (run (fifo_api 3)
        (init Map.empty True 2 (fifo_start [fresh ''a'', fresh ''b'', fresh ''c'', fresh ''d'']))
        [Enqueue (hop ''r'' 1), NextRequest, DownloaderActivity 1, NextRequest]))
     \<le> 2 + int 3 + int (admitted_redirects True
          [Enqueue (hop ''r'' 1), NextRequest, DownloaderActivity 1, NextRequest
             :: fifo_manager operation])
   \<and> len (snd (run (fifo_api 3)
        (init Map.empty True 2 (fifo_start [fresh ''a'', fresh ''b'', fresh ''c'', fresh ''d'']))
        [Enqueue (hop ''r'' 1), NextRequest, DownloaderActivity 1, NextRequest])) = 2"
proof -
  have batch: "\<forall>m. length (fst (api_get_next_requests (fifo_api 3) m)) \<le> 3"
    by (simp add: fifo_api_def)
  have start: "pending_requests
      (init Map.empty True 2 (fifo_start [fresh ''a'', fresh ''b'', fresh ''c'', fresh ''d'']))
        = []"
    "total_concurrency
      (init Map.empty True 2 (fifo_start [fresh ''a'', fresh ''b'', fresh ''c'', fresh ''d'']))
        \<le> 2"
    by (simp_all add: init_def)
  have caps: "\<forall>c'\<in>set (reported
      [Enqueue (hop ''r'' 1), NextRequest, DownloaderActivity 1, NextRequest
         :: fifo_manager operation]). c' \<le> 2"
    by simp
  show ?thesis
    using pending_requests_bound [OF start(1) _ start(2) caps batch]
    by (simp add: sched_defs)
qed

subsection \<open>A refill past the capacity\<close>

text \<open>
  Claim C9: at capacity 2, with an empty buffer, a frontier that is not finished and
  answers with the batch \<open>[A, B, C]\<close>, and a counter \<^verbatim>\<open>returned_requests_count\<close>
  that has not counted yet, one call of \<^verbatim>\<open>next_request\<close> pulls once, buffers the whole
  batch, returns \<open>A\<close>, leaves \<open>[B, C]\<close> in the buffer in this order and sets the counter
  to 1.
\<close>

theorem next_request_scenario:
  assumes "total_concurrency s = 2"
    and "pending_requests s = []"
    and "\<not> finished api (manager (frontier s))"
    and "fst (api_get_next_requests api (manager (frontier s))) = [A, B, C]"
    and "dict_get (stats (stats_manager s))
           (get_stats_name (stats_manager s) ''returned_requests_count'') 0 = 0"
  shows "fst (next_request api s) = Some A
       \<and> pending_requests (snd (next_request api s)) = [B, C]
       \<and> stats (stats_manager (snd (next_request api s)))
           (get_stats_name (stats_manager s) ''returned_requests_count'') = Some 1
       \<and> calls (frontier (snd (next_request api s))) = calls (frontier s) @ [GetNextRequests]"
proof -
  have refill: "\<not> finished api (manager (frontier s)) \<and> len s < total_concurrency s"
    using assms(1-3) by (simp add: len_def)
  then have "get_next_request api s =
      (Some A, s\<lparr>frontier := \<lparr>manager = snd (api_get_next_requests api (manager (frontier s))),
                              calls = calls (frontier s) @ [GetNextRequests]\<rparr>,
                 pending_requests := [B, C]\<rparr>)"
    using assms(2,4) by (simp add: get_next_request_refill get_pending_request_def)
  then show ?thesis
    using assms(5)
    by (simp add: next_request_def add_returned_requests_def sm_inc_value_stats)
qed

theorem next_request_scenario_witness:
  "fst (next_request (fifo_api 3)
      (init Map.empty False 2 (fifo_start [fresh ''a'', fresh ''b'', fresh ''c''])))
     = Some (fresh ''a'')
   \<and> pending_requests (snd (next_request (fifo_api 3)
      (init Map.empty False 2 (fifo_start [fresh ''a'', fresh ''b'', fresh ''c'']))))
     = [fresh ''b'', fresh ''c'']
   \<and> stats (stats_manager (snd (next_request (fifo_api 3)
      (init Map.empty False 2 (fifo_start [fresh ''a'', fresh ''b'', fresh ''c''])))))
       ''crawlfrontier/returned_requests_count'' = Some 1"
  using next_request_scenario
    [of "init Map.empty False 2 (fifo_start [fresh ''a'', fresh ''b'', fresh ''c''])"
        "fifo_api 3" "fresh ''a''" "fresh ''b''" "fresh ''c''"]
  by (simp add: sched_defs)

subsection \<open>A request without a redirect count\<close>

text \<open>
  Claim C10: a request whose \<^verbatim>\<open>meta\<close> has no entry \<^verbatim>\<open>'redirect_times'\<close> is read
  as depth 0 and is not a redirect continuation. Whatever \<^verbatim>\<open>redirect_enabled\<close> is,
  \<^verbatim>\<open>enqueue_request\<close> returns \<^verbatim>\<open>True\<close>, hands the request to the frontier with one
  \<^verbatim>\<open>add_seeds\<close> call and leaves the buffer alone.
\<close>

theorem enqueue_request_no_redirect_times:
  assumes "meta r ''redirect_times'' = None"
  shows "let s' = snd (enqueue_request api s r)
         in \<not> request_is_redirected r
          \<and> fst (enqueue_request api s r) = True
          \<and> calls (frontier s') = calls (frontier s) @ [AddSeeds [r]]
          \<and> manager (frontier s') = api_add_seeds api [r] (manager (frontier s))
          \<and> pending_requests s' = pending_requests s"
  using assms
  by (simp add: enqueue_request_def request_is_redirected_def dict_get_def Let_def
      frontier_add_seeds_def)

text \<open>With redirects enabled and with redirects disabled.\<close>

theorem enqueue_request_no_redirect_times_witness:
  "fst (enqueue_request (fifo_api 3) (init Map.empty True 2 (fifo_start [])) (fresh ''a''))
   \<and> calls (frontier (snd (enqueue_request (fifo_api 3)
        (init Map.empty True 2 (fifo_start [])) (fresh ''a'')))) = [AddSeeds [fresh ''a'']]
   \<and> pending_requests (snd (enqueue_request (fifo_api 3)
        (init Map.empty True 2 (fifo_start [])) (fresh ''a''))) = []
   \<and> fst (enqueue_request (fifo_api 3) (init Map.empty False 2 (fifo_start [])) (fresh ''a''))
   \<and> calls (frontier (snd (enqueue_request (fifo_api 3)
        (init Map.empty False 2 (fifo_start [])) (fresh ''a'')))) = [AddSeeds [fresh ''a'']]"
  using enqueue_request_no_redirect_times
      [of "fresh ''a''" "fifo_api 3" "init Map.empty True 2 (fifo_start [])"]
    enqueue_request_no_redirect_times
      [of "fresh ''a''" "fifo_api 3" "init Map.empty False 2 (fifo_start [])"]
  by (simp add: sched_defs)

end
